theory Spec2Isabelle
  imports Main
begin

section \<open>Removal and truncation of an smap database (libaddb/addb-smap-remove.c)\<close>

text \<open>
  The two functions of \<^verbatim>\<open>addb-smap-remove.c\<close> compute nothing of their own: they call the
  allocator, the log, the file system and three other parts of libaddb, and combine the
  error codes that come back. The embedding therefore makes every such call explicit.
  What the callee answers and how it changes the world outside is a parameter (the record
  \<open>env\<close> over a world of any type); what the C code does with the answers is translated
  line by line. Every call is also written to a trace, in program order, so that "is
  attempted", "is logged" and "happens before" are statements about a list of events.
\<close>

subsection \<open>Results of calls, events\<close>

text \<open>
  \<^verbatim>\<open>unlink\<close>, \<^verbatim>\<open>rmdir\<close> and \<^verbatim>\<open>cm_malloc\<close> report failure through their return value
  (nonzero, respectively a null pointer) and leave the reason in \<^verbatim>\<open>errno\<close>. \<open>Failure e\<close> is
  such a failed call with \<^verbatim>\<open>errno = e\<close>.
\<close>

datatype sysret = Success | Failure int

definition ENOENT :: int where
  "ENOENT = 2"

text \<open>A tiled descriptor (\<^verbatim>\<open>addb_tiled *\<close>) is known by its address only.\<close>

type_synonym addb_tiled = nat

text \<open>The one value that a log message formats: a byte count (\<^verbatim>\<open>%lu\<close>) or a name (\<^verbatim>\<open>%s\<close>).\<close>

datatype logarg = Bytes nat | Name string

datatype event =
    Ev_malloc nat sysret
  | Ev_free
  | Ev_log string int logarg
  | Ev_unlink string sysret
  | Ev_largefile_remove string int
  | Ev_rmdir string sysret
  | Ev_tiled_backup addb_tiled bool int
  | Ev_smap_close int

subsection \<open>The smap structure\<close>

text \<open>
  Of \<^verbatim>\<open>struct addb_smap\<close> the code reads the partition array and the number of partitions
  in use; of a partition, its tiled descriptor (a pointer that may be null) and its path.
  The handle \<^verbatim>\<open>sm_addb\<close> gives access to the allocator and the log, which are part of the
  environment here.
\<close>

record addb_smap_partition =
  part_td :: "addb_tiled option"
  part_path :: string

record addb_smap =
  sm_partition :: "addb_smap_partition list"
  sm_partition_n :: nat

subsection \<open>The environment\<close>

text \<open>
  Each field answers one kind of call in a world \<open>'w\<close> and gives the world after the call.
  \<^verbatim>\<open>addb_smap_partition_basename\<close> and the constant \<^verbatim>\<open>ADDB_GMAP_PARTITIONS_MAX\<close> are
  declared in headers outside this file and are parameters as well:
  \<open>addb_smap_partition_basename E i n\<close> is the zero-terminated string that the helper
  writes into a buffer of \<open>n\<close> bytes for partition \<open>i\<close>; it is taken to depend on \<open>i\<close> and
  \<open>n\<close> only. The loop counter is an \<^verbatim>\<open>unsigned int\<close>, the constant a small number of
  partitions: the counter does not wrap, and \<open>nat\<close> is used.
\<close>

record 'w env =
  cm_malloc :: "nat \<Rightarrow> 'w \<Rightarrow> sysret \<times> 'w"
  unlink :: "string \<Rightarrow> 'w \<Rightarrow> sysret \<times> 'w"
  rmdir :: "string \<Rightarrow> 'w \<Rightarrow> sysret \<times> 'w"
  addb_largefile_remove :: "string \<Rightarrow> 'w \<Rightarrow> int \<times> 'w"
  addb_tiled_backup :: "addb_tiled \<Rightarrow> bool \<Rightarrow> 'w \<Rightarrow> int \<times> 'w"
  addb_smap_close :: "addb_smap \<Rightarrow> 'w \<Rightarrow> int \<times> 'w"
  addb_smap_partition_basename :: "nat \<Rightarrow> nat \<Rightarrow> string"
  ADDB_GMAP_PARTITIONS_MAX :: nat

record 'w state =
  world :: 'w
  trace :: "event list"

definition emit :: "event \<Rightarrow> 'w state \<Rightarrow> 'w state" where
  "emit ev s = s\<lparr>trace := trace s @ [ev]\<rparr>"

definition call_malloc :: "'w env \<Rightarrow> nat \<Rightarrow> 'w state \<Rightarrow> sysret \<times> 'w state" where
  "call_malloc E n s =
     (case cm_malloc E n (world s) of (r, w) \<Rightarrow> (r, emit (Ev_malloc n r) (s\<lparr>world := w\<rparr>)))"

definition call_unlink :: "'w env \<Rightarrow> string \<Rightarrow> 'w state \<Rightarrow> sysret \<times> 'w state" where
  "call_unlink E p s =
     (case unlink E p (world s) of (r, w) \<Rightarrow> (r, emit (Ev_unlink p r) (s\<lparr>world := w\<rparr>)))"

definition call_rmdir :: "'w env \<Rightarrow> string \<Rightarrow> 'w state \<Rightarrow> sysret \<times> 'w state" where
  "call_rmdir E p s =
     (case rmdir E p (world s) of (r, w) \<Rightarrow> (r, emit (Ev_rmdir p r) (s\<lparr>world := w\<rparr>)))"

definition call_largefile_remove :: "'w env \<Rightarrow> string \<Rightarrow> 'w state \<Rightarrow> int \<times> 'w state" where
  "call_largefile_remove E p s =
     (case addb_largefile_remove E p (world s) of
        (e, w) \<Rightarrow> (e, emit (Ev_largefile_remove p e) (s\<lparr>world := w\<rparr>)))"

definition call_tiled_backup ::
  "'w env \<Rightarrow> addb_tiled \<Rightarrow> bool \<Rightarrow> 'w state \<Rightarrow> int \<times> 'w state" where
  "call_tiled_backup E td on s =
     (case addb_tiled_backup E td on (world s) of
        (e, w) \<Rightarrow> (e, emit (Ev_tiled_backup td on e) (s\<lparr>world := w\<rparr>)))"

definition call_smap_close :: "'w env \<Rightarrow> addb_smap \<Rightarrow> 'w state \<Rightarrow> int \<times> 'w state" where
  "call_smap_close E sm s =
     (case addb_smap_close E sm (world s) of
        (e, w) \<Rightarrow> (e, emit (Ev_smap_close e) (s\<lparr>world := w\<rparr>)))"

text \<open>\<^verbatim>\<open>cl_log_errno\<close> at \<^verbatim>\<open>CL_LEVEL_ERROR\<close> and \<^verbatim>\<open>cm_free\<close> return nothing.\<close>

definition cl_log_errno :: "string \<Rightarrow> int \<Rightarrow> logarg \<Rightarrow> 'w state \<Rightarrow> 'w state" where
  "cl_log_errno func err arg s = emit (Ev_log func err arg) s"

definition cm_free :: "'w state \<Rightarrow> 'w state" where
  "cm_free s = emit Ev_free s"

subsection \<open>\<^verbatim>\<open>addb_smap_remove\<close>\<close>

text \<open>
  Lines 57 to 62: the directory name is copied into the buffer and a slash is appended
  unless the name is empty or ends in one already. The result is the text in front of the
  basename and the room left for the basename (\<^verbatim>\<open>partition_base_n\<close>, 80 bytes less the
  slash). Sizes are \<^verbatim>\<open>size_t\<close>; the sum \<^verbatim>\<open>path_n + 80\<close> does not wrap for a string that
  fits in memory, so \<open>nat\<close> is used.
\<close>

definition partition_prefix :: "string \<Rightarrow> string \<times> nat" where
  "partition_prefix path =
     (if path \<noteq> [] \<and> last path \<noteq> CHR ''/'' then (path @ ''/'', 79) else (path, 80))"

definition partition_path :: "'w env \<Rightarrow> string \<Rightarrow> nat \<Rightarrow> string" where
  "partition_path E path partition_i =
     (case partition_prefix path of
        (pfx, partition_base_n) \<Rightarrow>
          pfx @ addb_smap_partition_basename E partition_i partition_base_n)"

text \<open>
  The body of the loop, lines 65 to 76. The local \<^verbatim>\<open>err\<close> has no value before the first
  failing \<^verbatim>\<open>unlink\<close>: \<open>None\<close>.
\<close>

definition remove_partition ::
  "'w env \<Rightarrow> string \<Rightarrow> nat \<Rightarrow> int option \<Rightarrow> 'w state \<Rightarrow> int option \<times> 'w state" where
  "remove_partition E path partition_i err s =
     (case call_unlink E (partition_path E path partition_i) s of
        (Success, s') \<Rightarrow> (err, s')
      | (Failure e, s') \<Rightarrow>
          if ENOENT = e then (Some 0, s')
          else (Some e, cl_log_errno ''unlink'' e (Name (partition_path E path partition_i)) s'))"

function remove_partitions ::
  "'w env \<Rightarrow> string \<Rightarrow> nat \<Rightarrow> int option \<Rightarrow> 'w state \<Rightarrow> int option \<times> 'w state" where
  "remove_partitions E path partition_i err s =
     (if partition_i < ADDB_GMAP_PARTITIONS_MAX E then
        (case remove_partition E path partition_i err s of
           (err', s') \<Rightarrow> remove_partitions E path (Suc partition_i) err' s')
      else (err, s))"
  by pat_completeness auto
termination
  by (relation "measure (\<lambda>(E, path, partition_i, err, s). ADDB_GMAP_PARTITIONS_MAX E - partition_i)")
     auto

declare remove_partitions.simps [simp del]

definition addb_smap_remove :: "'w env \<Rightarrow> string \<Rightarrow> 'w state \<Rightarrow> int \<times> 'w state" where
  "addb_smap_remove E path s =
     (case call_malloc E (length path + 80) s of
        (Failure e, s1) \<Rightarrow>
          (e, cl_log_errno ''cm_malloc'' e (Bytes (length path + 80)) s1)
      | (Success, s1) \<Rightarrow>
          (case remove_partitions E path 0 None s1 of
             (err_unlink, s2) \<Rightarrow>
               (case call_largefile_remove E path (cm_free s2) of
                  (err, s3) \<Rightarrow>
                    (case call_rmdir E path
                            (if err \<noteq> 0
                             then cl_log_errno ''addb_largefile_remove'' err (Name path) s3
                             else s3) of
                       (Success, s4) \<Rightarrow> (err, s4)
                     | (Failure e, s4) \<Rightarrow>
                         (if err = 0 then e else err,
                          cl_log_errno ''rmdir'' e (Name path) s4)))))"

subsection \<open>\<^verbatim>\<open>addb_smap_truncate\<close>\<close>

text \<open>
  The body of the first loop, lines 105 to 114, for the partition that \<^verbatim>\<open>part\<close> points to.
\<close>

definition disable_backup ::
  "'w env \<Rightarrow> addb_smap_partition \<Rightarrow> int \<Rightarrow> 'w state \<Rightarrow> int \<times> 'w state" where
  "disable_backup E part err s =
     (case part_td part of
        None \<Rightarrow> (err, s)
      | Some td \<Rightarrow>
          (case call_tiled_backup E td False s of
             (e, s') \<Rightarrow>
               if e \<noteq> 0
               then (if err = 0 then e else err,
                     cl_log_errno ''addb_tiled_backup'' e (Name (part_path part)) s')
               else (err, s')))"

text \<open>
  \<^verbatim>\<open>part\<close> runs from the start of the array up to \<^verbatim>\<open>part_end\<close>, which is
  \<^verbatim>\<open>sm_partition + sm_partition_n - 1\<close>: one slot before the array when no partition is in
  use, so that the comparison is one of integers and the loop does not run then.
\<close>

function disable_backups ::
  "'w env \<Rightarrow> addb_smap \<Rightarrow> nat \<Rightarrow> int \<Rightarrow> 'w state \<Rightarrow> int \<times> 'w state" where
  "disable_backups E sm part err s =
     (if int part < int (sm_partition_n sm) - 1 then
        (case disable_backup E (sm_partition sm ! part) err s of
           (err', s') \<Rightarrow> disable_backups E sm (Suc part) err' s')
      else (err, s))"
  by pat_completeness auto
termination
  by (relation "measure (\<lambda>(E, sm, part, err, s). sm_partition_n sm - part)") auto

declare disable_backups.simps [simp del]

text \<open>The handle \<^verbatim>\<open>sm\<close> may be null: \<open>None\<close>.\<close>

definition addb_smap_truncate ::
  "'w env \<Rightarrow> addb_smap option \<Rightarrow> string \<Rightarrow> 'w state \<Rightarrow> int \<times> 'w state" where
  "addb_smap_truncate E sm_opt path s =
     (case sm_opt of
        None \<Rightarrow> (0, s)
      | Some sm \<Rightarrow>
          (case disable_backups E sm 0 0 s of
             (err1, s1) \<Rightarrow>
               (case call_smap_close E sm s1 of
                  (e, s2) \<Rightarrow>
                    (case addb_smap_remove E path
                            (if e \<noteq> 0
                             then cl_log_errno ''addb_smap_close'' e (Name path) s2
                             else s2) of
                       (e', s3) \<Rightarrow>
                         (let err2 = (if e \<noteq> 0 \<and> err1 = 0 then e else err1)
                          in if e' \<noteq> 0
                             then (if err2 = 0 then e' else err2,
                                   cl_log_errno ''addb_smap_remove'' e' (Name path) s3)
                             else (err2, s3))))))"

subsection \<open>Reading a trace\<close>

text \<open>The three steps of a removal, without their results.\<close>

datatype step = Step_unlink string | Step_largefile_remove string | Step_rmdir string

fun step_of :: "event \<Rightarrow> step option" where
  "step_of (Ev_unlink p r) = Some (Step_unlink p)"
| "step_of (Ev_largefile_remove p e) = Some (Step_largefile_remove p)"
| "step_of (Ev_rmdir p r) = Some (Step_rmdir p)"
| "step_of _ = None"

fun is_backup :: "event \<Rightarrow> bool" where
  "is_backup (Ev_tiled_backup td on e) = True"
| "is_backup _ = False"

fun is_close :: "event \<Rightarrow> bool" where
  "is_close (Ev_smap_close e) = True"
| "is_close _ = False"


fun largefile_result :: "event \<Rightarrow> int option" where
  "largefile_result (Ev_largefile_remove p e) = Some e"
| "largefile_result _ = None"

fun rmdir_result :: "event \<Rightarrow> sysret option" where
  "rmdir_result (Ev_rmdir p r) = Some r"
| "rmdir_result _ = None"


fun backup_call :: "event \<Rightarrow> (addb_tiled \<times> bool) option" where
  "backup_call (Ev_tiled_backup td on e) = Some (td, on)"
| "backup_call _ = None"

fun backup_result :: "event \<Rightarrow> int option" where
  "backup_result (Ev_tiled_backup td on e) = Some e"
| "backup_result _ = None"

text \<open>The error codes that \<^verbatim>\<open>addb_smap_truncate\<close> itself logs.\<close>

fun truncate_log :: "event \<Rightarrow> int option" where
  "truncate_log (Ev_log func e arg) =
     (if func = ''addb_tiled_backup'' \<or> func = ''addb_smap_close'' \<or> func = ''addb_smap_remove''
      then Some e else None)"
| "truncate_log _ = None"

text \<open>
  How the results of the largefile removal and of \<^verbatim>\<open>rmdir\<close> make the return value of
  \<^verbatim>\<open>addb_smap_remove\<close>, and the first error of a sequence of steps: the first code that is
  not 0, and 0 if there is none.
\<close>

fun remove_result :: "int \<Rightarrow> sysret \<Rightarrow> int" where
  "remove_result err Success = err"
| "remove_result err (Failure e) = (if err = 0 then e else err)"

fun first_error :: "int list \<Rightarrow> int" where
  "first_error [] = 0"
| "first_error (e # es) = (if e = 0 then first_error es else e)"

subsection \<open>The events that a run is expected to leave\<close>

text \<open>
  After an \<^verbatim>\<open>unlink\<close> the loop of \<^verbatim>\<open>addb_smap_remove\<close> logs a failure unless it is
  \<^verbatim>\<open>ENOENT\<close>, and keeps in \<^verbatim>\<open>err\<close> the code of the failure, with 0 for \<^verbatim>\<open>ENOENT\<close>.
  \<open>unlink_events E path irs\<close> are the events of the loop when partition \<open>i\<close> is met with
  result \<open>r\<close>, for each \<open>(i, r)\<close> of \<open>irs\<close> in turn.
\<close>

fun unlink_log :: "event \<Rightarrow> event list" where
  "unlink_log (Ev_unlink p (Failure e)) =
     (if e = ENOENT then [] else [Ev_log ''unlink'' e (Name p)])"
| "unlink_log _ = []"

fun unlink_err :: "int option \<Rightarrow> sysret \<Rightarrow> int option" where
  "unlink_err err Success = err"
| "unlink_err err (Failure e) = Some (if e = ENOENT then 0 else e)"

definition unlink_events :: "'w env \<Rightarrow> string \<Rightarrow> (nat \<times> sysret) list \<Rightarrow> event list" where
  "unlink_events E path irs =
     concat (map (\<lambda>(i, r). Ev_unlink (partition_path E path i) r #
                            unlink_log (Ev_unlink (partition_path E path i) r)) irs)"

text \<open>
  The events of \<^verbatim>\<open>addb_smap_remove\<close> once the buffer is allocated: \<open>rs\<close> are the results of
  the \<^verbatim>\<open>unlink\<close> calls, \<open>lf\<close> that of the largefile removal, \<open>rd\<close> that of \<^verbatim>\<open>rmdir\<close>.
\<close>

definition remove_events ::
  "'w env \<Rightarrow> string \<Rightarrow> sysret list \<Rightarrow> int \<Rightarrow> sysret \<Rightarrow> event list" where
  "remove_events E path rs lf rd =
     Ev_malloc (length path + 80) Success #
     unlink_events E path (zip [0..<ADDB_GMAP_PARTITIONS_MAX E] rs) @
     [Ev_free, Ev_largefile_remove path lf] @
     (if lf \<noteq> 0 then [Ev_log ''addb_largefile_remove'' lf (Name path)] else []) @
     Ev_rmdir path rd #
     (case rd of Success \<Rightarrow> [] | Failure e \<Rightarrow> [Ev_log ''rmdir'' e (Name path)])"

text \<open>
  The slots that the first loop of \<^verbatim>\<open>addb_smap_truncate\<close> visits from \<open>part\<close> on, the
  descriptors attached to a list of partitions (with the partition's path, for the log),
  and the events of disabling the backup of each, given the results.
\<close>

definition slots :: "addb_smap \<Rightarrow> nat \<Rightarrow> addb_smap_partition list" where
  "slots sm part = map (\<lambda>i. sm_partition sm ! i) [part..<sm_partition_n sm - 1]"

definition attached :: "addb_smap_partition list \<Rightarrow> (addb_tiled \<times> string) list" where
  "attached parts =
     List.map_filter
       (\<lambda>part. case part_td part of None \<Rightarrow> None | Some td \<Rightarrow> Some (td, part_path part))
       parts"

definition backup_events :: "((addb_tiled \<times> string) \<times> int) list \<Rightarrow> event list" where
  "backup_events tes =
     concat (map (\<lambda>((td, name), e).
                    Ev_tiled_backup td False e #
                    (if e \<noteq> 0 then [Ev_log ''addb_tiled_backup'' e (Name name)] else []))
                 tes)"



subsection \<open>A small file system to run the code in\<close>

text \<open>
  A world for concrete runs: the regular files and the directories that exist, the files
  that may not be removed, and the answers of the allocator, the largefile store, the tiled
  descriptors and \<^verbatim>\<open>addb_smap_close\<close>. \<^verbatim>\<open>unlink\<close> and \<^verbatim>\<open>rmdir\<close> answer as POSIX has it:
  \<^verbatim>\<open>ENOENT\<close> for a name that does not exist, \<^verbatim>\<open>EACCES\<close> for a file that may not be removed,
  \<^verbatim>\<open>ENOTEMPTY\<close> for a directory that still has a file in it.
\<close>

definition EIO :: int where
  "EIO = 5"

definition ENOMEM :: int where
  "ENOMEM = 12"

definition EACCES :: int where
  "EACCES = 13"

definition ENOTEMPTY :: int where
  "ENOTEMPTY = 39"

record fs =
  fs_files :: "string list"
  fs_dirs :: "string list"
  fs_protected :: "string list"
  fs_nomem :: bool
  fs_largefile_err :: int
  fs_bad_tiles :: "addb_tiled list"
  fs_close_err :: int

definition fs_malloc :: "nat \<Rightarrow> fs \<Rightarrow> sysret \<times> fs" where
  "fs_malloc n w = (if fs_nomem w then (Failure ENOMEM, w) else (Success, w))"

definition fs_unlink :: "string \<Rightarrow> fs \<Rightarrow> sysret \<times> fs" where
  "fs_unlink p w =
     (if p \<in> set (fs_files w) then
        if p \<in> set (fs_protected w) then (Failure EACCES, w)
        else (Success, w\<lparr>fs_files := removeAll p (fs_files w)\<rparr>)
      else (Failure ENOENT, w))"

text \<open>A directory is named with or without a slash at the end.\<close>

definition dir_slash :: "string \<Rightarrow> string" where
  "dir_slash p = (if p \<noteq> [] \<and> last p = CHR ''/'' then p else p @ ''/'')"

definition fs_rmdir :: "string \<Rightarrow> fs \<Rightarrow> sysret \<times> fs" where
  "fs_rmdir p w =
     (if dir_slash p \<in> set (map dir_slash (fs_dirs w)) then
        if filter (\<lambda>f. take (length (dir_slash p)) f = dir_slash p) (fs_files w) = []
        then (Success, w\<lparr>fs_dirs := filter (\<lambda>d. dir_slash d \<noteq> dir_slash p) (fs_dirs w)\<rparr>)
        else (Failure ENOTEMPTY, w)
      else (Failure ENOENT, w))"

definition fs_largefile_remove :: "string \<Rightarrow> fs \<Rightarrow> int \<times> fs" where
  "fs_largefile_remove p w = (fs_largefile_err w, w)"

definition fs_tiled_backup :: "addb_tiled \<Rightarrow> bool \<Rightarrow> fs \<Rightarrow> int \<times> fs" where
  "fs_tiled_backup td on w = (if td \<in> set (fs_bad_tiles w) then (EIO, w) else (0, w))"

definition fs_smap_close :: "addb_smap \<Rightarrow> fs \<Rightarrow> int \<times> fs" where
  "fs_smap_close sm w = (fs_close_err w, w)"

text \<open>
  Modelled from the spec: \<^verbatim>\<open>addb_smap_partition_basename\<close> is defined in another file of
  libaddb. The spec asks for a distinct, stable name per index, of bounded length, written
  into the caller's storage; this one writes \<^verbatim>\<open>part-\<close> and the index in decimal, cut to
  the room given less the terminating zero byte. Four partitions at most keep the runs
  short.
\<close>

fun decimal :: "nat \<Rightarrow> string" where
  "decimal n =
     (if n < 10 then [''0123456789'' ! n]
      else decimal (n div 10) @ [''0123456789'' ! (n mod 10)])"

declare decimal.simps [simp del]

definition fs_basename :: "nat \<Rightarrow> nat \<Rightarrow> string" where
  "fs_basename i n = take (n - 1) (''part-'' @ decimal i)"

definition fs_env :: "fs env" where
  "fs_env =
     \<lparr>cm_malloc = fs_malloc, unlink = fs_unlink, rmdir = fs_rmdir,
      addb_largefile_remove = fs_largefile_remove, addb_tiled_backup = fs_tiled_backup,
      addb_smap_close = fs_smap_close, addb_smap_partition_basename = fs_basename,
      ADDB_GMAP_PARTITIONS_MAX = 4\<rparr>"

text \<open>
  The directory \<^verbatim>\<open>/data/db\<close> with partitions 0 and 1, all services in order; the same with
  partition 1 protected; with no partition file left; after a removal; without memory; and
  with a tiled descriptor that refuses and a close that fails. \<open>sm_db\<close> is an open smap of
  four partitions, the second without descriptor.
\<close>

definition fs_db :: fs where
  "fs_db =
     \<lparr>fs_files = [''/data/db/part-0'', ''/data/db/part-1''], fs_dirs = [''/data/db''],
      fs_protected = [], fs_nomem = False, fs_largefile_err = 0, fs_bad_tiles = [],
      fs_close_err = 0\<rparr>"

definition fs_db_protected :: fs where
  "fs_db_protected = fs_db\<lparr>fs_protected := [''/data/db/part-1'']\<rparr>"

definition fs_db_removed :: fs where
  "fs_db_removed = fs_db\<lparr>fs_files := [], fs_dirs := []\<rparr>"

definition fs_db_nomem :: fs where
  "fs_db_nomem = fs_db\<lparr>fs_nomem := True\<rparr>"

definition fs_db_empty :: fs where
  "fs_db_empty = fs_db\<lparr>fs_files := []\<rparr>"

definition fs_db_bad_tile :: fs where
  "fs_db_bad_tile = fs_db\<lparr>fs_bad_tiles := [1], fs_close_err := EACCES\<rparr>"

definition sm_db :: addb_smap where
  "sm_db =
     \<lparr>sm_partition =
        [\<lparr>part_td = Some 1, part_path = ''/data/db/part-0''\<rparr>,
         \<lparr>part_td = None, part_path = ''/data/db/part-1''\<rparr>,
         \<lparr>part_td = Some 3, part_path = ''/data/db/part-2''\<rparr>,
         \<lparr>part_td = Some 4, part_path = ''/data/db/part-3''\<rparr>],
      sm_partition_n = 4\<rparr>"

text \<open>A run starts with an empty trace.\<close>

definition start :: "'w \<Rightarrow> 'w state" where
  "start w = \<lparr>world = w, trace = []\<rparr>"

section \<open>Properties of the runs\<close>

subsection \<open>What a run appends to the trace\<close>

lemma trace_emit [simp]: "trace (emit ev s) = trace s @ [ev]"
  by (simp add: emit_def)

lemma world_emit [simp]: "world (emit ev s) = world s"
  by (simp add: emit_def)

lemma trace_log [simp]: "trace (cl_log_errno f e a s) = trace s @ [Ev_log f e a]"
  by (simp add: cl_log_errno_def)

lemma world_log [simp]: "world (cl_log_errno f e a s) = world s"
  by (simp add: cl_log_errno_def)

lemma trace_free [simp]: "trace (cm_free s) = trace s @ [Ev_free]"
  by (simp add: cm_free_def)

lemma world_free [simp]: "world (cm_free s) = world s"
  by (simp add: cm_free_def)

lemma call_unlink_run:
  "call_unlink E p s = (r, s') \<Longrightarrow>
     trace s' = trace s @ [Ev_unlink p r] \<and> (r, world s') = unlink E p (world s)"
  by (auto simp: call_unlink_def split: prod.splits)

lemma call_malloc_run:
  "call_malloc E n s = (r, s') \<Longrightarrow>
     trace s' = trace s @ [Ev_malloc n r] \<and> (r, world s') = cm_malloc E n (world s)"
  by (auto simp: call_malloc_def split: prod.splits)

lemma call_rmdir_run:
  "call_rmdir E p s = (r, s') \<Longrightarrow>
     trace s' = trace s @ [Ev_rmdir p r] \<and> (r, world s') = rmdir E p (world s)"
  by (auto simp: call_rmdir_def split: prod.splits)

lemma call_largefile_remove_run:
  "call_largefile_remove E p s = (e, s') \<Longrightarrow>
     trace s' = trace s @ [Ev_largefile_remove p e] \<and>
     (e, world s') = addb_largefile_remove E p (world s)"
  by (auto simp: call_largefile_remove_def split: prod.splits)

lemma call_tiled_backup_run:
  "call_tiled_backup E td on s = (e, s') \<Longrightarrow>
     trace s' = trace s @ [Ev_tiled_backup td on e] \<and>
     (e, world s') = addb_tiled_backup E td on (world s)"
  by (auto simp: call_tiled_backup_def split: prod.splits)

lemma call_smap_close_run:
  "call_smap_close E sm s = (e, s') \<Longrightarrow>
     trace s' = trace s @ [Ev_smap_close e] \<and> (e, world s') = addb_smap_close E sm (world s)"
  by (auto simp: call_smap_close_def split: prod.splits)

subsection \<open>The loop and the run of \<^verbatim>\<open>addb_smap_remove\<close>\<close>

lemma remove_partition_run:
  assumes "remove_partition E path i err s = (err', s')"
  shows "\<exists>r. trace s' = trace s @ unlink_events E path [(i, r)] \<and> err' = unlink_err err r
            \<and> (r, world s') = unlink E (partition_path E path i) (world s)"
proof -
  obtain r s1 where c: "call_unlink E (partition_path E path i) s = (r, s1)"
    by (cases "call_unlink E (partition_path E path i) s")
  note t = call_unlink_run [OF c]
  show ?thesis
  proof (cases r)
    case Success
    with assms c t show ?thesis
      by (auto simp: remove_partition_def unlink_events_def intro!: exI [of _ Success])
  next
    case (Failure e)
    with assms c t show ?thesis
      by (auto simp: remove_partition_def unlink_events_def intro!: exI [of _ "Failure e"]
               split: if_splits)
  qed
qed

lemma unlink_events_append:
  "unlink_events E path (xs @ ys) = unlink_events E path xs @ unlink_events E path ys"
  by (simp add: unlink_events_def)

lemma remove_partitions_run:
  "remove_partitions E path i err s = (err', s') \<Longrightarrow>
     \<exists>rs. length rs = ADDB_GMAP_PARTITIONS_MAX E - i \<and>
          trace s' = trace s @ unlink_events E path (zip [i..<ADDB_GMAP_PARTITIONS_MAX E] rs) \<and>
          err' = foldl unlink_err err rs"
proof (induction E path i err s rule: remove_partitions.induct)
  case (1 E path i err s)
  show ?case
  proof (cases "i < ADDB_GMAP_PARTITIONS_MAX E")
    case False
    with "1.prems" show ?thesis
      by (simp add: remove_partitions.simps [of E path i] unlink_events_def)
  next
    case True
    obtain err1 s1 where b: "remove_partition E path i err s = (err1, s1)"
      by (cases "remove_partition E path i err s")
    from True b "1.prems" have rest: "remove_partitions E path (Suc i) err1 s1 = (err', s')"
      by (simp add: remove_partitions.simps [of E path i])
    from remove_partition_run [OF b] obtain r where
      r: "trace s1 = trace s @ unlink_events E path [(i, r)]" "err1 = unlink_err err r"
      by blast
    from "1.IH" [OF True b [symmetric] rest] obtain rs where
      rs: "length rs = ADDB_GMAP_PARTITIONS_MAX E - Suc i"
          "trace s' = trace s1 @ unlink_events E path (zip [Suc i..<ADDB_GMAP_PARTITIONS_MAX E] rs)"
          "err' = foldl unlink_err err1 rs"
      by blast
    from True have up: "[i..<ADDB_GMAP_PARTITIONS_MAX E] = i # [Suc i..<ADDB_GMAP_PARTITIONS_MAX E]"
      by (simp add: upt_conv_Cons)
    have "unlink_events E path (zip [i..<ADDB_GMAP_PARTITIONS_MAX E] (r # rs)) =
          unlink_events E path [(i, r)] @
          unlink_events E path (zip [Suc i..<ADDB_GMAP_PARTITIONS_MAX E] rs)"
      by (simp only: up zip_Cons_Cons unlink_events_append [symmetric] append_Cons append_Nil)
    with r rs True show ?thesis
      by (intro exI [of _ "r # rs"]) simp
  qed
qed

lemma addb_smap_remove_nomem:
  assumes "cm_malloc E (length path + 80) (world s) = (Failure e, w)"
  shows "addb_smap_remove E path s =
           (e, s\<lparr>world := w,
                 trace := trace s @ [Ev_malloc (length path + 80) (Failure e),
                                     Ev_log ''cm_malloc'' e (Bytes (length path + 80))]\<rparr>)"
  using assms by (simp add: addb_smap_remove_def call_malloc_def cl_log_errno_def emit_def)

lemma addb_smap_remove_run:
  assumes m: "fst (cm_malloc E (length path + 80) (world s)) = Success"
  shows "\<exists>rs lf rd. length rs = ADDB_GMAP_PARTITIONS_MAX E \<and>
           trace (snd (addb_smap_remove E path s)) = trace s @ remove_events E path rs lf rd \<and>
           fst (addb_smap_remove E path s) = remove_result lf rd"
proof -
  obtain r s1 where c1: "call_malloc E (length path + 80) s = (r, s1)"
    by (cases "call_malloc E (length path + 80) s")
  from call_malloc_run [OF c1] m have r: "r = Success"
    and t1: "trace s1 = trace s @ [Ev_malloc (length path + 80) Success]"
    by (auto simp: fst_def split: prod.splits dest: sym)
  obtain eu s2 where c2: "remove_partitions E path 0 None s1 = (eu, s2)"
    by (cases "remove_partitions E path 0 None s1")
  from remove_partitions_run [OF c2] obtain rs where
    rs: "length rs = ADDB_GMAP_PARTITIONS_MAX E"
        "trace s2 = trace s1 @ unlink_events E path (zip [0..<ADDB_GMAP_PARTITIONS_MAX E] rs)"
    by auto
  obtain lf s3 where c3: "call_largefile_remove E path (cm_free s2) = (lf, s3)"
    by (cases "call_largefile_remove E path (cm_free s2)")
  from call_largefile_remove_run [OF c3]
  have t3: "trace s3 = trace s2 @ [Ev_free, Ev_largefile_remove path lf]"
    by simp
  define s3' where
    "s3' = (if lf \<noteq> 0 then cl_log_errno ''addb_largefile_remove'' lf (Name path) s3 else s3)"
  have t3': "trace s3' = trace s3 @
               (if lf \<noteq> 0 then [Ev_log ''addb_largefile_remove'' lf (Name path)] else [])"
    by (simp add: s3'_def)
  obtain rd s4 where c4: "call_rmdir E path s3' = (rd, s4)"
    by (cases "call_rmdir E path s3'")
  from call_rmdir_run [OF c4] have t4: "trace s4 = trace s3' @ [Ev_rmdir path rd]"
    by simp
  have run: "addb_smap_remove E path s =
          (remove_result lf rd,
           case rd of Success \<Rightarrow> s4 | Failure e \<Rightarrow> cl_log_errno ''rmdir'' e (Name path) s4)"
    using c1 r c2 c3 c4 by (simp add: addb_smap_remove_def s3'_def split: sysret.splits)
  have "trace (snd (addb_smap_remove E path s)) = trace s @ remove_events E path rs lf rd"
    by (cases rd) (simp_all add: run t4 t3' t3 rs t1 remove_events_def)
  with rs(1) run show ?thesis
    by (intro exI [of _ rs] exI [of _ lf] exI [of _ rd]) simp
qed

subsection \<open>Reading the events of a removal\<close>

lemma map_filter_append:
  "List.map_filter f (xs @ ys) = List.map_filter f xs @ List.map_filter f ys"
  by (simp add: List.map_filter_def)

lemma unlink_events_simps:
  "unlink_events E path [] = []"
  "unlink_events E path ((i, r) # irs) =
     Ev_unlink (partition_path E path i) r #
     unlink_log (Ev_unlink (partition_path E path i) r) @ unlink_events E path irs"
  by (simp_all add: unlink_events_def)

lemma unlink_log_quiet:
  "List.map_filter step_of (unlink_log ev) = []"
  "List.map_filter largefile_result (unlink_log ev) = []"
  "List.map_filter rmdir_result (unlink_log ev) = []"
  "List.map_filter truncate_log (unlink_log ev) = []"
  "filter is_backup (unlink_log ev) = []"
  "filter is_close (unlink_log ev) = []"
  by (cases ev rule: unlink_log.cases; simp add:)+

lemma steps_unlink_events:
  "List.map_filter step_of (unlink_events E path irs) =
     map (\<lambda>ir. Step_unlink (partition_path E path (fst ir))) irs"
  by (induction irs)
     (auto simp: unlink_events_simps map_filter_append unlink_log_quiet)

lemma no_other_in_unlink_events:
  "List.map_filter largefile_result (unlink_events E path irs) = []"
  "List.map_filter rmdir_result (unlink_events E path irs) = []"
  "List.map_filter truncate_log (unlink_events E path irs) = []"
  "filter is_backup (unlink_events E path irs) = []"
  "filter is_close (unlink_events E path irs) = []"
  by (induction irs;
      auto simp: unlink_events_simps map_filter_append unlink_log_quiet)+

lemma map_fst_zip_upt:
  "length rs = n - i \<Longrightarrow> map (\<lambda>ir. f (fst ir)) (zip [i..<n] rs) = map f [i..<n]"
proof -
  assume "length rs = n - i"
  then have "map fst (zip [i..<n] rs) = [i..<n]"
    by simp
  then have "map f (map fst (zip [i..<n] rs)) = map f [i..<n]"
    by simp
  then show ?thesis
    by (simp add: comp_def)
qed

lemma steps_remove_events:
  assumes "length rs = ADDB_GMAP_PARTITIONS_MAX E"
  shows "List.map_filter step_of (remove_events E path rs lf rd) =
           map (\<lambda>i. Step_unlink (partition_path E path i)) [0..<ADDB_GMAP_PARTITIONS_MAX E] @
           [Step_largefile_remove path, Step_rmdir path]"
proof -
  have "map (\<lambda>ir. Step_unlink (partition_path E path (fst ir)))
            (zip [0..<ADDB_GMAP_PARTITIONS_MAX E] rs) =
        map (\<lambda>i. Step_unlink (partition_path E path i)) [0..<ADDB_GMAP_PARTITIONS_MAX E]"
    using assms by (intro map_fst_zip_upt) simp
  then show ?thesis
    by (cases rd)
       (simp_all add: remove_events_def map_filter_append steps_unlink_events)
qed

lemma results_remove_events:
  "List.map_filter largefile_result (remove_events E path rs lf rd) = [lf]"
  "List.map_filter rmdir_result (remove_events E path rs lf rd) = [rd]"
  by (cases rd;
      simp add: remove_events_def map_filter_append no_other_in_unlink_events)+

lemma truncate_free_remove_events:
  "List.map_filter truncate_log (remove_events E path rs lf rd) = []"
  "filter is_backup (remove_events E path rs lf rd) = []"
  "filter is_close (remove_events E path rs lf rd) = []"
  by (cases rd;
      simp add: remove_events_def map_filter_append no_other_in_unlink_events)+

lemma addb_smap_remove_events:
  "\<exists>evs. trace (snd (addb_smap_remove E path s)) = trace s @ evs \<and>
         List.map_filter truncate_log evs = [] \<and>
         filter is_backup evs = [] \<and> filter is_close evs = []"
proof (cases "fst (cm_malloc E (length path + 80) (world s))")
  case Success
  from addb_smap_remove_run [OF Success] obtain rs lf rd where
    "trace (snd (addb_smap_remove E path s)) = trace s @ remove_events E path rs lf rd"
    by blast
  then show ?thesis
    by (intro exI [of _ "remove_events E path rs lf rd"])
       (simp add: truncate_free_remove_events)
next
  case (Failure e)
  then obtain w where "cm_malloc E (length path + 80) (world s) = (Failure e, w)"
    by (cases "cm_malloc E (length path + 80) (world s)") simp
  from addb_smap_remove_nomem [OF this] show ?thesis
    by (simp add:)
qed




subsection \<open>The loop and the run of \<^verbatim>\<open>addb_smap_truncate\<close>\<close>

lemma backup_events_simps:
  "backup_events [] = []"
  "backup_events (((td, name), e) # tes) =
     Ev_tiled_backup td False e #
     (if e \<noteq> 0 then [Ev_log ''addb_tiled_backup'' e (Name name)] else []) @
     backup_events tes"
  by (simp_all add: backup_events_def)

lemma attached_simps:
  "attached [] = []"
  "attached (part # parts) =
     (case part_td part of None \<Rightarrow> attached parts
      | Some td \<Rightarrow> (td, part_path part) # attached parts)"
  by (simp_all add: attached_def split: option.splits)

lemma disable_backup_run:
  assumes "disable_backup E part err s = (err', s')"
  shows "\<exists>es. length es = length (attached [part]) \<and>
              trace s' = trace s @ backup_events (zip (attached [part]) es) \<and>
              err' = first_error (err # es)"
proof (cases "part_td part")
  case None
  with assms show ?thesis
    by (simp add: disable_backup_def attached_simps backup_events_simps)
next
  case (Some td)
  obtain e s1 where c: "call_tiled_backup E td False s = (e, s1)"
    by (cases "call_tiled_backup E td False s")
  from call_tiled_backup_run [OF c] have t: "trace s1 = trace s @ [Ev_tiled_backup td False e]"
    by simp
  from assms Some c t show ?thesis
    by (intro exI [of _ "[e]"])
       (auto simp: disable_backup_def attached_simps backup_events_simps split: if_splits)
qed

lemma first_error_append:
  "first_error (es @ fs) = (if first_error es = 0 then first_error fs else first_error es)"
  by (induction es) auto

lemma disable_backups_run:
  "disable_backups E sm part err s = (err', s') \<Longrightarrow>
     \<exists>es. length es = length (attached (slots sm part)) \<and>
          trace s' = trace s @ backup_events (zip (attached (slots sm part)) es) \<and>
          err' = first_error (err # es)"
proof (induction E sm part err s rule: disable_backups.induct)
  case (1 E sm part err s)
  show ?case
  proof (cases "int part < int (sm_partition_n sm) - 1")
    case False
    then have "slots sm part = []"
      by (simp add: slots_def)
    with False "1.prems" show ?thesis
      by (simp add: disable_backups.simps [of E sm part] attached_simps backup_events_simps)
  next
    case True
    let ?p = "sm_partition sm ! part"
    obtain err1 s1 where b: "disable_backup E ?p err s = (err1, s1)"
      by (cases "disable_backup E ?p err s")
    from True b "1.prems" have rest: "disable_backups E sm (Suc part) err1 s1 = (err', s')"
      by (simp add: disable_backups.simps [of E sm part])
    from disable_backup_run [OF b] obtain es1 where
      es1: "length es1 = length (attached [?p])"
           "trace s1 = trace s @ backup_events (zip (attached [?p]) es1)"
           "err1 = first_error (err # es1)"
      by blast
    from "1.IH" [OF True b [symmetric] rest] obtain es2 where
      es2: "length es2 = length (attached (slots sm (Suc part)))"
           "trace s' = trace s1 @ backup_events (zip (attached (slots sm (Suc part))) es2)"
           "err' = first_error (err1 # es2)"
      by blast
    from True have "part < sm_partition_n sm - 1"
      by linarith
    then have sl: "slots sm part = ?p # slots sm (Suc part)"
      by (simp add: slots_def upt_conv_Cons)
    have att: "attached (slots sm part) = attached [?p] @ attached (slots sm (Suc part))"
      by (simp add: sl attached_simps split: option.splits)
    have ev: "backup_events (zip (attached (slots sm part)) (es1 @ es2)) =
              backup_events (zip (attached [?p]) es1) @
              backup_events (zip (attached (slots sm (Suc part))) es2)"
      using es1(1) by (simp add: att backup_events_def)
    show ?thesis
      using es1 es2 att ev
      by (intro exI [of _ "es1 @ es2"]) (simp add: first_error_append)
  qed
qed

lemma addb_smap_truncate_run:
  assumes "disable_backups E sm 0 0 s = (eb, s1)"
      and "call_smap_close E sm s1 = (ec, s2)"
      and "addb_smap_remove E path
             (if ec \<noteq> 0 then cl_log_errno ''addb_smap_close'' ec (Name path) s2 else s2) =
           (er, s3)"
  shows "addb_smap_truncate E (Some sm) path s =
           (first_error [eb, ec, er],
            if er \<noteq> 0 then cl_log_errno ''addb_smap_remove'' er (Name path) s3 else s3)"
  using assms by (simp add: addb_smap_truncate_def Let_def)

lemma backup_events_results:
  "length tps = length es \<Longrightarrow>
     List.map_filter backup_result (backup_events (zip tps es)) = es \<and>
     List.map_filter truncate_log (backup_events (zip tps es)) = filter (\<lambda>e. e \<noteq> 0) es \<and>
     List.map_filter backup_call (backup_events (zip tps es)) = map (\<lambda>tp. (fst tp, False)) tps"
  by (induction tps es rule: list_induct2)
     (auto simp: backup_events_simps)






subsection \<open>A directory without partition files\<close>

lemma remove_partitions_absent:
  "\<forall>j. i \<le> j \<and> j < ADDB_GMAP_PARTITIONS_MAX E \<longrightarrow>
         unlink E (partition_path E path j) (world s) = (Failure ENOENT, world s) \<Longrightarrow>
   world (snd (remove_partitions E path i err s)) = world s \<and>
   trace (snd (remove_partitions E path i err s)) =
     trace s @ map (\<lambda>j. Ev_unlink (partition_path E path j) (Failure ENOENT))
                   [i..<ADDB_GMAP_PARTITIONS_MAX E]"
proof (induction E path i err s rule: remove_partitions.induct)
  case (1 E path i err s)
  show ?case
  proof (cases "i < ADDB_GMAP_PARTITIONS_MAX E")
    case False
    then show ?thesis
      by (simp add: remove_partitions.simps [of E path i])
  next
    case True
    let ?s1 = "emit (Ev_unlink (partition_path E path i) (Failure ENOENT)) s"
    from True "1.prems"
    have u: "unlink E (partition_path E path i) (world s) = (Failure ENOENT, world s)"
      by simp
    then have b: "remove_partition E path i err s = (Some 0, ?s1)"
      by (simp add: remove_partition_def call_unlink_def)
    have "\<forall>j. Suc i \<le> j \<and> j < ADDB_GMAP_PARTITIONS_MAX E \<longrightarrow>
            unlink E (partition_path E path j) (world ?s1) = (Failure ENOENT, world ?s1)"
      using "1.prems" by simp
    from "1.IH" [OF True b [symmetric] this] True b show ?thesis
      by (simp add: remove_partitions.simps [of E path i] upt_conv_Cons)
  qed
qed

subsection \<open>Running the code on a concrete world\<close>

text \<open>The two loops unfold one round at a time, as long as their condition holds.\<close>

lemma remove_partitions_step:
  "partition_i < ADDB_GMAP_PARTITIONS_MAX E \<Longrightarrow>
     remove_partitions E path partition_i err s =
       (case remove_partition E path partition_i err s of
          (err', s') \<Rightarrow> remove_partitions E path (Suc partition_i) err' s')"
  by (simp add: remove_partitions.simps [of E path partition_i])

lemma remove_partitions_done:
  "\<not> partition_i < ADDB_GMAP_PARTITIONS_MAX E \<Longrightarrow>
     remove_partitions E path partition_i err s = (err, s)"
  by (simp add: remove_partitions.simps [of E path partition_i])

lemma disable_backups_step:
  "int part < int (sm_partition_n sm) - 1 \<Longrightarrow>
     disable_backups E sm part err s =
       (case disable_backup E (sm_partition sm ! part) err s of
          (err', s') \<Rightarrow> disable_backups E sm (Suc part) err' s')"
  by (simp add: disable_backups.simps [of E sm part])

lemma disable_backups_done:
  "\<not> int part < int (sm_partition_n sm) - 1 \<Longrightarrow> disable_backups E sm part err s = (err, s)"
  by (simp add: disable_backups.simps [of E sm part])

lemma decimal_digit: "n < 10 \<Longrightarrow> decimal n = [''0123456789'' ! n]"
  by (simp add: decimal.simps [of n])

lemmas run_simps =
  remove_partitions_step remove_partitions_done remove_partition_def addb_smap_remove_def
  disable_backups_step disable_backups_done disable_backup_def addb_smap_truncate_def
  call_malloc_def call_unlink_def call_rmdir_def call_largefile_remove_def
  call_tiled_backup_def call_smap_close_def
  cl_log_errno_def cm_free_def emit_def partition_path_def partition_prefix_def start_def

lemmas fs_simps =
  fs_env_def fs_malloc_def fs_unlink_def fs_rmdir_def fs_largefile_remove_def
  fs_tiled_backup_def fs_smap_close_def
  fs_basename_def decimal_digit dir_slash_def fs_db_def
  ENOENT_def ENOMEM_def EACCES_def ENOTEMPTY_def EIO_def

section \<open>The claims\<close>

subsection \<open>The return value and the steps of \<^verbatim>\<open>addb_smap_remove\<close>\<close>

text \<open>
  Claim C1 says that \<^verbatim>\<open>addb_smap_remove\<close> returns the error code of the first step that
  failed, the removal of the partitions being the first step. On the code this fails: in
  the directory \<^verbatim>\<open>/data/db\<close> with partition 1 protected, the \<^verbatim>\<open>unlink\<close> of partition 1
  fails with \<^verbatim>\<open>EACCES\<close> and is logged, the largefile removal succeeds, \<^verbatim>\<open>rmdir\<close> fails with
  \<^verbatim>\<open>ENOTEMPTY\<close>, and the value returned is \<^verbatim>\<open>ENOTEMPTY\<close>, the code of the later step.
  The code that the loop keeps in \<^verbatim>\<open>err\<close> is overwritten by the result of
  \<^verbatim>\<open>addb_largefile_remove\<close> before anything reads it.
\<close>

theorem addb_smap_remove_unlink_error_lost:
  "fst (addb_smap_remove fs_env ''/data/db'' (start fs_db_protected)) = ENOTEMPTY \<and>
   trace (snd (addb_smap_remove fs_env ''/data/db'' (start fs_db_protected))) =
     [Ev_malloc 88 Success,
      Ev_unlink ''/data/db/part-0'' Success,
      Ev_unlink ''/data/db/part-1'' (Failure EACCES),
      Ev_log ''unlink'' EACCES (Name ''/data/db/part-1''),
      Ev_unlink ''/data/db/part-2'' (Failure ENOENT),
      Ev_unlink ''/data/db/part-3'' (Failure ENOENT),
      Ev_free,
      Ev_largefile_remove ''/data/db'' 0,
      Ev_rmdir ''/data/db'' (Failure ENOTEMPTY),
      Ev_log ''rmdir'' ENOTEMPTY (Name ''/data/db'')]"
  by (simp add: run_simps fs_simps fs_db_protected_def)

text \<open>
  Claim C2, amended: whenever the allocation of the scratch buffer succeeds,
  \<^verbatim>\<open>addb_smap_remove\<close> attempts the \<^verbatim>\<open>unlink\<close> of every partition, then the largefile
  removal, then \<^verbatim>\<open>rmdir\<close>, in this order and whatever each of them answers.
\<close>

theorem addb_smap_remove_all_steps:
  assumes "fst (cm_malloc E (length path + 80) (world s)) = Success"
  shows "\<exists>evs. trace (snd (addb_smap_remove E path s)) = trace s @ evs \<and>
           List.map_filter step_of evs =
             map (\<lambda>i. Step_unlink (partition_path E path i)) [0..<ADDB_GMAP_PARTITIONS_MAX E] @
             [Step_largefile_remove path, Step_rmdir path]"
proof -
  from addb_smap_remove_run [OF assms] obtain rs lf rd where
    "length rs = ADDB_GMAP_PARTITIONS_MAX E"
    "trace (snd (addb_smap_remove E path s)) = trace s @ remove_events E path rs lf rd"
    by blast
  then show ?thesis
    by (intro exI [of _ "remove_events E path rs lf rd"]) (simp add: steps_remove_events)
qed

text \<open>The run with partition 1 protected: all six steps are attempted.\<close>

theorem addb_smap_remove_all_steps_witness:
  "fst (cm_malloc fs_env (length ''/data/db'' + 80) (world (start fs_db_protected))) = Success \<and>
   (\<exists>evs. trace (snd (addb_smap_remove fs_env ''/data/db'' (start fs_db_protected))) =
            trace (start fs_db_protected) @ evs \<and>
          List.map_filter step_of evs =
            [Step_unlink ''/data/db/part-0'', Step_unlink ''/data/db/part-1'',
             Step_unlink ''/data/db/part-2'', Step_unlink ''/data/db/part-3'',
             Step_largefile_remove ''/data/db'', Step_rmdir ''/data/db''])"
proof -
  have h: "fst (cm_malloc fs_env (length ''/data/db'' + 80) (world (start fs_db_protected))) =
           Success"
    by (simp add: fs_simps fs_db_protected_def start_def)
  have "map (\<lambda>i. Step_unlink (partition_path fs_env ''/data/db'' i))
          [0..<ADDB_GMAP_PARTITIONS_MAX fs_env] =
        [Step_unlink ''/data/db/part-0'', Step_unlink ''/data/db/part-1'',
         Step_unlink ''/data/db/part-2'', Step_unlink ''/data/db/part-3'']"
  proof -
    have "[0..<ADDB_GMAP_PARTITIONS_MAX fs_env] = [0, 1, 2, 3]"
      by (simp add: fs_env_def upt_conv_Cons)
    then show ?thesis
      by (simp add: fs_simps partition_path_def partition_prefix_def)
  qed
  with addb_smap_remove_all_steps [OF h] h show ?thesis
    by simp
qed

text \<open>
  The claim as stated, for every input, fails when the allocator is out of memory: the
  function logs that and returns \<^verbatim>\<open>ENOMEM\<close> with none of the three steps attempted.
\<close>

theorem addb_smap_remove_nomem_no_step:
  "fst (addb_smap_remove fs_env ''/data/db'' (start fs_db_nomem)) = ENOMEM \<and>
   List.map_filter step_of
     (trace (snd (addb_smap_remove fs_env ''/data/db'' (start fs_db_nomem)))) = []"
  by (simp add: run_simps fs_simps fs_db_nomem_def)

text \<open>
  Claim C3, amended: when the buffer is allocated, every partition file is absent (each
  \<^verbatim>\<open>unlink\<close> fails with \<^verbatim>\<open>ENOENT\<close>) and the largefile removal returns 0, then
  \<^verbatim>\<open>addb_smap_remove\<close> returns what \<^verbatim>\<open>rmdir\<close> reports: 0 if it succeeds, its error code if
  it fails. Nothing is logged for the partitions. Only for the partition files is
  "not found" taken for success.
\<close>

theorem addb_smap_remove_partitions_absent:
  assumes "cm_malloc E (length path + 80) (world s) = (Success, w)"
      and "\<forall>i<ADDB_GMAP_PARTITIONS_MAX E.
             unlink E (partition_path E path i) w = (Failure ENOENT, w)"
      and "addb_largefile_remove E path w = (0, w')"
      and "rmdir E path w' = (rd, w'')"
  shows "fst (addb_smap_remove E path s) = (case rd of Success \<Rightarrow> 0 | Failure e \<Rightarrow> e) \<and>
         trace (snd (addb_smap_remove E path s)) =
           trace s @ Ev_malloc (length path + 80) Success #
           map (\<lambda>i. Ev_unlink (partition_path E path i) (Failure ENOENT))
               [0..<ADDB_GMAP_PARTITIONS_MAX E] @
           [Ev_free, Ev_largefile_remove path 0, Ev_rmdir path rd] @
           (case rd of Success \<Rightarrow> [] | Failure e \<Rightarrow> [Ev_log ''rmdir'' e (Name path)])"
proof -
  let ?s1 = "emit (Ev_malloc (length path + 80) Success) (s\<lparr>world := w\<rparr>)"
  have c1: "call_malloc E (length path + 80) s = (Success, ?s1)"
    using assms(1) by (simp add: call_malloc_def)
  have "\<forall>j. 0 \<le> j \<and> j < ADDB_GMAP_PARTITIONS_MAX E \<longrightarrow>
          unlink E (partition_path E path j) (world ?s1) = (Failure ENOENT, world ?s1)"
    using assms(2) by simp
  from remove_partitions_absent [OF this, of None]
  obtain eu s2 where c2: "remove_partitions E path 0 None ?s1 = (eu, s2)"
    and w2: "world s2 = w"
    and t2: "trace s2 = trace ?s1 @ map (\<lambda>j. Ev_unlink (partition_path E path j) (Failure ENOENT))
                                      [0..<ADDB_GMAP_PARTITIONS_MAX E]"
    by (cases "remove_partitions E path 0 None ?s1") simp
  let ?s3 = "emit (Ev_largefile_remove path 0) ((cm_free s2)\<lparr>world := w'\<rparr>)"
  have c3: "call_largefile_remove E path (cm_free s2) = (0, ?s3)"
    using assms(3) w2 by (simp add: call_largefile_remove_def)
  let ?s4 = "emit (Ev_rmdir path rd) (?s3\<lparr>world := w''\<rparr>)"
  have c4: "call_rmdir E path ?s3 = (rd, ?s4)"
    using assms(4) by (simp add: call_rmdir_def)
  show ?thesis
    using c1 c2 c3 c4 t2 by (cases rd) (simp_all add: addb_smap_remove_def)
qed

text \<open>
  In the directory without partition files, which is still there, \<^verbatim>\<open>rmdir\<close> succeeds and
  the removal returns 0.
\<close>

theorem addb_smap_remove_partitions_absent_witness:
  "cm_malloc fs_env (length ''/data/db'' + 80) (world (start fs_db_empty)) =
     (Success, fs_db_empty) \<and>
   ADDB_GMAP_PARTITIONS_MAX fs_env = 4 \<and>
   unlink fs_env (partition_path fs_env ''/data/db'' 0) fs_db_empty =
     (Failure ENOENT, fs_db_empty) \<and>
   unlink fs_env (partition_path fs_env ''/data/db'' 1) fs_db_empty =
     (Failure ENOENT, fs_db_empty) \<and>
   unlink fs_env (partition_path fs_env ''/data/db'' 2) fs_db_empty =
     (Failure ENOENT, fs_db_empty) \<and>
   unlink fs_env (partition_path fs_env ''/data/db'' 3) fs_db_empty =
     (Failure ENOENT, fs_db_empty) \<and>
   addb_largefile_remove fs_env ''/data/db'' fs_db_empty = (0, fs_db_empty) \<and>
   rmdir fs_env ''/data/db'' fs_db_empty = (Success, fs_db_removed) \<and>
   fst (addb_smap_remove fs_env ''/data/db'' (start fs_db_empty)) = 0"
proof -
  have h1: "cm_malloc fs_env (length ''/data/db'' + 80) (world (start fs_db_empty)) =
              (Success, fs_db_empty)"
    by (simp add: fs_simps fs_db_empty_def start_def)
  have h2: "\<forall>i<ADDB_GMAP_PARTITIONS_MAX fs_env.
      unlink fs_env (partition_path fs_env ''/data/db'' i) fs_db_empty =
        (Failure ENOENT, fs_db_empty)"
    by (simp add: fs_simps fs_db_empty_def)
  have h3: "addb_largefile_remove fs_env ''/data/db'' fs_db_empty = (0, fs_db_empty)"
    by (simp add: fs_simps fs_db_empty_def)
  have h4: "rmdir fs_env ''/data/db'' fs_db_empty = (Success, fs_db_removed)"
    by (simp add: fs_simps fs_db_empty_def fs_db_removed_def)
  have m: "ADDB_GMAP_PARTITIONS_MAX fs_env = 4"
    by (simp add: fs_env_def)
  from h2 m have u:
    "unlink fs_env (partition_path fs_env ''/data/db'' 0) fs_db_empty =
       (Failure ENOENT, fs_db_empty)"
    "unlink fs_env (partition_path fs_env ''/data/db'' 1) fs_db_empty =
       (Failure ENOENT, fs_db_empty)"
    "unlink fs_env (partition_path fs_env ''/data/db'' 2) fs_db_empty =
       (Failure ENOENT, fs_db_empty)"
    "unlink fs_env (partition_path fs_env ''/data/db'' 3) fs_db_empty =
       (Failure ENOENT, fs_db_empty)"
    by simp_all
  from addb_smap_remove_partitions_absent [OF h1 h2 h3 h4] h1 m u h3 h4 show ?thesis
    by simp
qed

text \<open>
  The claim as stated fails: a first removal of \<^verbatim>\<open>/data/db\<close> returns 0 and leaves neither
  file nor directory; a second removal, in the world that the first one left, returns
  \<^verbatim>\<open>ENOENT\<close>, the error of \<^verbatim>\<open>rmdir\<close> on the directory that is gone.
\<close>

theorem addb_smap_remove_twice_fails:
  "addb_smap_remove fs_env ''/data/db'' (start fs_db) =
     (0, \<lparr>world = fs_db_removed,
          trace = [Ev_malloc 88 Success,
                   Ev_unlink ''/data/db/part-0'' Success,
                   Ev_unlink ''/data/db/part-1'' Success,
                   Ev_unlink ''/data/db/part-2'' (Failure ENOENT),
                   Ev_unlink ''/data/db/part-3'' (Failure ENOENT),
                   Ev_free,
                   Ev_largefile_remove ''/data/db'' 0,
                   Ev_rmdir ''/data/db'' Success]\<rparr>) \<and>
   fst (addb_smap_remove fs_env ''/data/db'' (start fs_db_removed)) = ENOENT \<and>
   ENOENT \<noteq> 0"
  by (simp add: run_simps fs_simps fs_db_removed_def)


text \<open>
  Claim C10: when the buffer is allocated, \<^verbatim>\<open>addb_smap_remove\<close> calls the largefile
  removal once and \<^verbatim>\<open>rmdir\<close> once, and the value it returns is made of these two results
  alone: the code of the largefile removal if that is not 0, else the error of \<^verbatim>\<open>rmdir\<close>
  if it failed, else 0. The results of the \<^verbatim>\<open>unlink\<close> calls have no part in it.
\<close>

theorem addb_smap_remove_result:
  assumes "fst (cm_malloc E (length path + 80) (world s)) = Success"
  shows "\<exists>evs lf rd. trace (snd (addb_smap_remove E path s)) = trace s @ evs \<and>
           List.map_filter largefile_result evs = [lf] \<and>
           List.map_filter rmdir_result evs = [rd] \<and>
           fst (addb_smap_remove E path s) = remove_result lf rd"
proof -
  from addb_smap_remove_run [OF assms] obtain rs lf rd where
    "trace (snd (addb_smap_remove E path s)) = trace s @ remove_events E path rs lf rd"
    "fst (addb_smap_remove E path s) = remove_result lf rd"
    by blast
  then show ?thesis
    by (intro exI [of _ "remove_events E path rs lf rd"] exI [of _ lf] exI [of _ rd])
       (simp add: results_remove_events)
qed

text \<open>The run with partition 1 protected, where an \<^verbatim>\<open>unlink\<close> fails.\<close>

theorem addb_smap_remove_result_witness:
  "fst (cm_malloc fs_env (length ''/data/db'' + 80) (world (start fs_db_protected))) = Success \<and>
   (\<exists>evs lf rd.
      trace (snd (addb_smap_remove fs_env ''/data/db'' (start fs_db_protected))) =
        trace (start fs_db_protected) @ evs \<and>
      List.map_filter largefile_result evs = [lf] \<and>
      List.map_filter rmdir_result evs = [rd] \<and>
      fst (addb_smap_remove fs_env ''/data/db'' (start fs_db_protected)) = remove_result lf rd)"
proof -
  have h: "fst (cm_malloc fs_env (length ''/data/db'' + 80) (world (start fs_db_protected))) =
           Success"
    by (simp add: fs_simps fs_db_protected_def start_def)
  from addb_smap_remove_result [OF h] h show ?thesis
    by blast
qed

subsection \<open>The partition path\<close>




subsection \<open>\<^verbatim>\<open>addb_smap_truncate\<close>\<close>




text \<open>
  Claim C7: for an smap that is not null, \<^verbatim>\<open>addb_smap_truncate\<close> returns the first code
  that is not 0 among the results of the backup calls in order, the result of the close and
  the result of \<^verbatim>\<open>addb_smap_remove\<close>, and 0 if all of them are 0. Each of these codes
  that is not 0 is logged, in this order, also those that are not returned.
\<close>

theorem addb_smap_truncate_first_error:
  assumes "disable_backups E sm 0 0 s = (eb, s1)"
      and "call_smap_close E sm s1 = (ec, s2)"
      and "addb_smap_remove E path
             (if ec \<noteq> 0 then cl_log_errno ''addb_smap_close'' ec (Name path) s2 else s2) =
           (er, s3)"
  shows "fst (addb_smap_truncate E (Some sm) path s) =
           first_error
             (List.map_filter backup_result (drop (length (trace s)) (trace s1)) @ [ec, er]) \<and>
         List.map_filter truncate_log
             (drop (length (trace s)) (trace (snd (addb_smap_truncate E (Some sm) path s)))) =
           filter (\<lambda>e. e \<noteq> 0)
             (List.map_filter backup_result (drop (length (trace s)) (trace s1)) @ [ec, er])"
proof -
  let ?s2 = "if ec \<noteq> 0 then cl_log_errno ''addb_smap_close'' ec (Name path) s2 else s2"
  let ?tps = "attached (slots sm 0)"
  from disable_backups_run [OF assms(1)] obtain es where
    es: "length es = length ?tps" "trace s1 = trace s @ backup_events (zip ?tps es)"
        "eb = first_error (0 # es)"
    by blast
  from es(1,2) have bs: "List.map_filter backup_result (drop (length (trace s)) (trace s1)) = es"
    by (simp add: backup_events_results)
  from call_smap_close_run [OF assms(2)] have t2: "trace s2 = trace s1 @ [Ev_smap_close ec]"
    by simp
  from addb_smap_remove_events [of E path ?s2] assms(3) obtain evs where
    evs: "trace s3 = trace ?s2 @ evs" "List.map_filter truncate_log evs = []"
    by auto
  note run = addb_smap_truncate_run [OF assms]
  have r: "fst (addb_smap_truncate E (Some sm) path s) = first_error (es @ [ec, er])"
    by (simp add: run es(3) first_error_append)
  have "trace (snd (addb_smap_truncate E (Some sm) path s)) =
          trace s @ backup_events (zip ?tps es) @ Ev_smap_close ec #
          (if ec \<noteq> 0 then [Ev_log ''addb_smap_close'' ec (Name path)] else []) @ evs @
          (if er \<noteq> 0 then [Ev_log ''addb_smap_remove'' er (Name path)] else [])"
    by (simp add: run evs(1) t2 es(2))
  then have l: "List.map_filter truncate_log
             (drop (length (trace s)) (trace (snd (addb_smap_truncate E (Some sm) path s)))) =
           filter (\<lambda>e. e \<noteq> 0) (es @ [ec, er])"
    using es(1) by (simp add: map_filter_append backup_events_results evs(2))
  from r l show ?thesis
    by (simp only: bs)
qed

text \<open>
  The first backup call fails with \<^verbatim>\<open>EIO\<close>, the close with \<^verbatim>\<open>EACCES\<close>, the removal
  succeeds: \<^verbatim>\<open>EIO\<close> is returned.
\<close>

theorem addb_smap_truncate_first_error_witness:
  "\<exists>s1 s2 s3.
     disable_backups fs_env sm_db 0 0 (start fs_db_bad_tile) = (EIO, s1) \<and>
     call_smap_close fs_env sm_db s1 = (EACCES, s2) \<and>
     addb_smap_remove fs_env ''/data/db''
       (if EACCES \<noteq> 0 then cl_log_errno ''addb_smap_close'' EACCES (Name ''/data/db'') s2 else s2) =
     (0, s3) \<and>
     fst (addb_smap_truncate fs_env (Some sm_db) ''/data/db'' (start fs_db_bad_tile)) =
       first_error
         (List.map_filter backup_result
            (drop (length (trace (start fs_db_bad_tile))) (trace s1)) @ [EACCES, 0]) \<and>
     fst (addb_smap_truncate fs_env (Some sm_db) ''/data/db'' (start fs_db_bad_tile)) = EIO"
proof -
  let ?s0 = "start fs_db_bad_tile"
  let ?s1 = "snd (disable_backups fs_env sm_db 0 0 ?s0)"
  let ?s2 = "snd (call_smap_close fs_env sm_db ?s1)"
  let ?s2' = "if EACCES \<noteq> 0
              then cl_log_errno ''addb_smap_close'' EACCES (Name ''/data/db'') ?s2 else ?s2"
  let ?s3 = "snd (addb_smap_remove fs_env ''/data/db'' ?s2')"
  have h1: "disable_backups fs_env sm_db 0 0 ?s0 = (EIO, ?s1)"
    by (simp add: run_simps fs_simps fs_db_bad_tile_def sm_db_def)
  have h2: "call_smap_close fs_env sm_db ?s1 = (EACCES, ?s2)"
    by (simp add: run_simps fs_simps fs_db_bad_tile_def sm_db_def)
  have h3: "addb_smap_remove fs_env ''/data/db'' ?s2' = (0, ?s3)"
    by (simp add: run_simps fs_simps fs_db_bad_tile_def sm_db_def)
  have v: "fst (addb_smap_truncate fs_env (Some sm_db) ''/data/db'' ?s0) = EIO"
    by (simp add: run_simps fs_simps fs_db_bad_tile_def sm_db_def)
  from addb_smap_truncate_first_error [OF h1 h2 h3] h1 h2 h3 v show ?thesis
    by blast
qed

text \<open>
  Claim C8: with a null smap, \<^verbatim>\<open>addb_smap_truncate\<close> returns 0 and leaves the world and the
  trace as they were: no call of any kind is made.
\<close>

theorem addb_smap_truncate_null:
  "addb_smap_truncate E None path s = (0, s)"
  by (simp add: addb_smap_truncate_def)

end
